theory Spec2Isabelle
  imports Main
begin

section \<open>User Profile Manager (main.js): data model\<close>

text \<open>
  The server keeps one array \<open>users\<close> in memory and mirrors it to the file
  \<open>users.json\<close>. Everything it stores came out of \<open>JSON.parse\<close>, so the values of
  the program are JSON values. An object is the list of its properties in insertion
  order, with distinct keys.

  What the model leaves out: numbers are integers (the ids the program computes are
  integers, and double arithmetic is exact on them below \<open>2^53\<close>; fractions, infinities
  and NaN are not modelled); a string is a sequence of characters with codes below 256;
  reading and writing the file succeed; and a request is handled in one piece, without
  another request running between the two halves of a handler that waits for its body.
\<close>

datatype json =
    JNull
  | JBool bool
  | JNum int
  | JStr string
  | JArr "json list"
  | JObj "(string \<times> json) list"

text \<open>
  A user as the POST handler builds it: \<open>{ id, name, email, role }\<close>. The id is a
  number; the other three fields hold whatever value the request body carried.
\<close>

record user =
  user_id :: int
  name :: json
  email :: json
  role :: json

definition user_json :: "user \<Rightarrow> json" where
  "user_json u =
     JObj [(''id'', JNum (user_id u)), (''name'', name u), (''email'', email u), (''role'', role u)]"

definition users_json :: "user list \<Rightarrow> json" where
  "users_json us = JArr (map user_json us)"

section \<open>JSON.stringify(value, null, 2)\<close>

text \<open>
  \<open>JSON.stringify\<close> and \<open>JSON.parse\<close> are the platform's functions, not the
  program's; they are modelled here after their definition in ECMA-262, on the values
  of the model. A non-negative integer is written in decimal digits.
\<close>

function nat_digits :: "nat \<Rightarrow> string" where
  "nat_digits n =
     (if n < 10 then [char_of (48 + n)]
      else nat_digits (n div 10) @ [char_of (48 + n mod 10)])"
  by pat_completeness auto
termination
  by (relation "measure (\<lambda>n. n)") auto

declare nat_digits.simps [simp del]

definition number_string :: "int \<Rightarrow> string" where
  "number_string i = (if i < 0 then CHR ''-'' # nat_digits (nat (- i)) else nat_digits (nat i))"

definition hex_digit :: "nat \<Rightarrow> char" where
  "hex_digit d = (if d < 10 then char_of (48 + d) else char_of (87 + d))"

text \<open>
  QuoteJSONString: the two-character escapes for backspace, tab, line feed, form feed,
  carriage return, the double quote (0x22) and the backslash (0x5C); \<open>\u00XX\<close> for the
  other control characters; every other character as it is.
\<close>

definition escape_char :: "char \<Rightarrow> string" where
  "escape_char c =
     (if c = CHR 0x08 then [CHR 0x5C, CHR ''b'']
      else if c = CHR 0x09 then [CHR 0x5C, CHR ''t'']
      else if c = CHR 0x0A then [CHR 0x5C, CHR ''n'']
      else if c = CHR 0x0C then [CHR 0x5C, CHR ''f'']
      else if c = CHR 0x0D then [CHR 0x5C, CHR ''r'']
      else if c = CHR 0x22 then [CHR 0x5C, CHR 0x22]
      else if c = CHR 0x5C then [CHR 0x5C, CHR 0x5C]
      else if of_char c < (32 :: nat) then
        [CHR 0x5C, CHR ''u'', CHR ''0'', CHR ''0'',
         hex_digit (of_char c div 16), hex_digit (of_char c mod 16)]
      else [c])"

definition quote :: "string \<Rightarrow> string" where
  "quote s = CHR 0x22 # concat (map escape_char s) @ [CHR 0x22]"

definition newline :: "nat \<Rightarrow> string" where
  "newline n = CHR 0x0A # replicate n (CHR '' '')"

text \<open>
  SerializeJSONProperty with the gap of two spaces; the first argument is the width of
  the current indentation. An empty array is \<open>[]\<close> and an empty object \<open>{}\<close>; the
  elements of a non-empty one stand on lines of their own, two spaces deeper.
\<close>

fun serialize :: "nat \<Rightarrow> json \<Rightarrow> string"
  and serialize_elements :: "nat \<Rightarrow> json list \<Rightarrow> string"
  and serialize_members :: "nat \<Rightarrow> (string \<times> json) list \<Rightarrow> string"
where
  "serialize n JNull = ''null''"
| "serialize n (JBool b) = (if b then ''true'' else ''false'')"
| "serialize n (JNum i) = number_string i"
| "serialize n (JStr s) = quote s"
| "serialize n (JArr []) = ''[]''"
| "serialize n (JArr (x # xs)) =
     ''['' @ newline (n + 2) @ serialize_elements (n + 2) (x # xs) @ newline n @ '']''"
| "serialize n (JObj []) = ''{}''"
| "serialize n (JObj (m # ms)) =
     ''{'' @ newline (n + 2) @ serialize_members (n + 2) (m # ms) @ newline n @ ''}''"
| "serialize_elements n [] = []"
| "serialize_elements n [x] = serialize n x"
| "serialize_elements n (x # y # ys) =
     serialize n x @ '','' @ newline n @ serialize_elements n (y # ys)"
| "serialize_members n [] = []"
| "serialize_members n [(k, v)] = quote k @ '': '' @ serialize n v"
| "serialize_members n ((k, v) # m # ms) =
     quote k @ '': '' @ serialize n v @ '','' @ newline n @ serialize_members n (m # ms)"

definition JSON_stringify :: "json \<Rightarrow> string" where
  "JSON_stringify v = serialize 0 v"

section \<open>JSON.parse\<close>

text \<open>
  A recursive-descent reader of JSON text. White space is a space, a tab, a line feed or
  a carriage return. A number is an optional minus sign followed by decimal digits with
  no leading zero; a text whose number has a fraction or an exponent denotes a number
  outside the modelled values and is not read (\<open>None\<close>). A string may hold the
  two-character escapes and \<open>\u00XX\<close>. The members of an object are kept in the order of
  the text. The first argument of \<open>parse_value\<close> bounds the depth of the recursion;
  \<open>JSON_parse\<close> gives it the length of the text. \<open>None\<close> stands for the SyntaxError
  that \<open>JSON.parse\<close> throws.
\<close>

definition is_ws :: "char \<Rightarrow> bool" where
  "is_ws c = (c = CHR '' '' \<or> c = CHR 0x09 \<or> c = CHR 0x0A \<or> c = CHR 0x0D)"

definition skip_ws :: "string \<Rightarrow> string" where
  "skip_ws s = dropWhile is_ws s"

definition is_digit :: "char \<Rightarrow> bool" where
  "is_digit c = (48 \<le> (of_char c :: nat) \<and> (of_char c :: nat) \<le> 57)"

definition digits_value :: "string \<Rightarrow> nat" where
  "digits_value ds = foldl (\<lambda>a c. 10 * a + (of_char c - 48)) 0 ds"

definition parse_number :: "string \<Rightarrow> (json \<times> string) option" where
  "parse_number s =
     (let negative = (s \<noteq> [] \<and> hd s = CHR ''-'');
          r = (if negative then tl s else s);
          ds = takeWhile is_digit r;
          rest = dropWhile is_digit r
      in if ds = [] \<or> (hd ds = CHR ''0'' \<and> tl ds \<noteq> []) then None
         else if rest \<noteq> [] \<and> (hd rest = CHR ''.'' \<or> hd rest = CHR ''e'' \<or> hd rest = CHR ''E'')
           then None
         else Some (JNum (if negative then - int (digits_value ds) else int (digits_value ds)), rest))"

definition hex_value :: "char \<Rightarrow> nat option" where
  "hex_value c =
     (let n = (of_char c :: nat) in
      if 48 \<le> n \<and> n \<le> 57 then Some (n - 48)
      else if 97 \<le> n \<and> n \<le> 102 then Some (n - 87)
      else if 65 \<le> n \<and> n \<le> 70 then Some (n - 55)
      else None)"

definition unicode_escape :: "char \<Rightarrow> char \<Rightarrow> char \<Rightarrow> char \<Rightarrow> char option" where
  "unicode_escape h1 h2 h3 h4 =
     (case (hex_value h1, hex_value h2, hex_value h3, hex_value h4) of
        (Some a, Some b, Some c, Some d) \<Rightarrow>
          (if a = 0 \<and> b = 0 then Some (char_of (16 * c + d)) else None)
      | _ \<Rightarrow> None)"

definition simple_escape :: "char \<Rightarrow> char option" where
  "simple_escape e =
     (if e = CHR 0x22 then Some (CHR 0x22)
      else if e = CHR 0x5C then Some (CHR 0x5C)
      else if e = CHR ''/'' then Some (CHR ''/'')
      else if e = CHR ''b'' then Some (CHR 0x08)
      else if e = CHR ''f'' then Some (CHR 0x0C)
      else if e = CHR ''n'' then Some (CHR 0x0A)
      else if e = CHR ''r'' then Some (CHR 0x0D)
      else if e = CHR ''t'' then Some (CHR 0x09)
      else None)"

fun parse_chars :: "string \<Rightarrow> (string \<times> string) option" where
  "parse_chars [] = None"
| "parse_chars (c # r) =
     (if c = CHR 0x22 then Some ([], r)
      else if c = CHR 0x5C then
        (case r of
           [] \<Rightarrow> None
         | e # r1 \<Rightarrow>
             if e = CHR ''u'' then
               (case r1 of
                  h1 # h2 # h3 # h4 # r2 \<Rightarrow>
                    (case unicode_escape h1 h2 h3 h4 of
                       None \<Rightarrow> None
                     | Some d \<Rightarrow>
                         (case parse_chars r2 of
                            None \<Rightarrow> None
                          | Some (s, r') \<Rightarrow> Some (d # s, r')))
                | _ \<Rightarrow> None)
             else
               (case simple_escape e of
                  None \<Rightarrow> None
                | Some d \<Rightarrow>
                    (case parse_chars r1 of
                       None \<Rightarrow> None
                     | Some (s, r') \<Rightarrow> Some (d # s, r'))))
      else if of_char c < (32 :: nat) then None
      else (case parse_chars r of None \<Rightarrow> None | Some (s, r') \<Rightarrow> Some (c # s, r')))"

definition literal :: "string \<Rightarrow> json \<Rightarrow> string \<Rightarrow> (json \<times> string) option" where
  "literal w v s = (if take (length w) s = w then Some (v, drop (length w) s) else None)"

fun parse_value :: "nat \<Rightarrow> string \<Rightarrow> (json \<times> string) option"
  and parse_elements :: "nat \<Rightarrow> string \<Rightarrow> (json list \<times> string) option"
  and parse_members :: "nat \<Rightarrow> string \<Rightarrow> ((string \<times> json) list \<times> string) option"
where
  "parse_value 0 s = None"
| "parse_value (Suc f) [] = None"
| "parse_value (Suc f) (c # r) =
     (if c = CHR ''n'' then literal ''null'' JNull (c # r)
      else if c = CHR ''t'' then literal ''true'' (JBool True) (c # r)
      else if c = CHR ''f'' then literal ''false'' (JBool False) (c # r)
      else if c = CHR 0x22 then
        (case parse_chars r of None \<Rightarrow> None | Some (s, r') \<Rightarrow> Some (JStr s, r'))
      else if c = CHR ''['' then
        (case skip_ws r of
           [] \<Rightarrow> None
         | d # r' \<Rightarrow>
             if d = CHR '']'' then Some (JArr [], r')
             else (case parse_elements f (d # r') of
                     None \<Rightarrow> None
                   | Some (xs, r'') \<Rightarrow> Some (JArr xs, r'')))
      else if c = CHR ''{'' then
        (case skip_ws r of
           [] \<Rightarrow> None
         | d # r' \<Rightarrow>
             if d = CHR ''}'' then Some (JObj [], r')
             else (case parse_members f (d # r') of
                     None \<Rightarrow> None
                   | Some (ms, r'') \<Rightarrow> Some (JObj ms, r'')))
      else parse_number (c # r))"
| "parse_elements 0 s = None"
| "parse_elements (Suc f) s =
     (case parse_value f s of
        None \<Rightarrow> None
      | Some (x, r) \<Rightarrow>
          (case skip_ws r of
             [] \<Rightarrow> None
           | c # r' \<Rightarrow>
               if c = CHR '','' then
                 (case parse_elements f (skip_ws r') of
                    None \<Rightarrow> None
                  | Some (xs, r'') \<Rightarrow> Some (x # xs, r''))
               else if c = CHR '']'' then Some ([x], r')
               else None))"
| "parse_members 0 s = None"
| "parse_members (Suc f) [] = None"
| "parse_members (Suc f) (c # r) =
     (if c \<noteq> CHR 0x22 then None
      else
        (case parse_chars r of
           None \<Rightarrow> None
         | Some (k, r1) \<Rightarrow>
             (case skip_ws r1 of
                [] \<Rightarrow> None
              | c1 # r2 \<Rightarrow>
                  if c1 \<noteq> CHR '':'' then None
                  else
                    (case parse_value f (skip_ws r2) of
                       None \<Rightarrow> None
                     | Some (v, r3) \<Rightarrow>
                         (case skip_ws r3 of
                            [] \<Rightarrow> None
                          | c3 # r4 \<Rightarrow>
                              if c3 = CHR '','' then
                                (case parse_members f (skip_ws r4) of
                                   None \<Rightarrow> None
                                 | Some (ms, r5) \<Rightarrow> Some ((k, v) # ms, r5))
                              else if c3 = CHR ''}'' then Some ([(k, v)], r4)
                              else None)))))"

definition JSON_parse :: "string \<Rightarrow> json option" where
  "JSON_parse s =
     (case parse_value (length s) (skip_ws s) of
        None \<Rightarrow> None
      | Some (v, r) \<Rightarrow> if skip_ws r = [] then Some v else None)"

text \<open>
  Three notions the proofs about the reader use: how much of the recursion bound a value
  needs, what may follow a serialised value (nothing, a comma or a line feed), and the
  characters a serialised value can start with.
\<close>

fun need :: "json \<Rightarrow> nat"
  and need_elements :: "json list \<Rightarrow> nat"
  and need_members :: "(string \<times> json) list \<Rightarrow> nat"
where
  "need (JArr xs) = Suc (need_elements xs)"
| "need (JObj ms) = Suc (need_members ms)"
| "need JNull = 1"
| "need (JBool b) = 1"
| "need (JNum i) = 1"
| "need (JStr s) = 1"
| "need_elements [] = 0"
| "need_elements (x # xs) = Suc (max (need x) (need_elements xs))"
| "need_members [] = 0"
| "need_members ((k, v) # ms) = Suc (max (need v) (need_members ms))"

definition ok_rest :: "string \<Rightarrow> bool" where
  "ok_rest rest = (rest = [] \<or> hd rest = CHR '','' \<or> hd rest = CHR 0x0A)"


definition value_start :: "char \<Rightarrow> bool" where
  "value_start c = (\<not> is_ws c \<and> c \<noteq> CHR '']'' \<and> c \<noteq> CHR ''}'')"


section \<open>The server's state and its effects\<close>

text \<open>
  \<open>users\<close> is the array in memory, \<open>file_text\<close> the text of \<open>users.json\<close>. A handler's
  effects are listed in the order it performs them: \<open>Write\<close> is
  \<open>fs.writeFileSync(filePath, text)\<close>, \<open>Send\<close> is \<open>res.writeHead(status)\<close> with
  \<open>res.end(JSON.stringify(payload))\<close> (\<open>res.end()\<close> when there is no payload).
\<close>

record state =
  users :: "user list"
  file_text :: string

record response =
  status :: nat
  payload :: "json option"

datatype event = Write string | Send response

datatype error = TypeError | SyntaxError | NotUserRecords

definition saveUsers :: "state \<Rightarrow> event list \<times> state" where
  "saveUsers s =
     (let text = JSON_stringify (users_json (users s))
      in ([Write text], s\<lparr>file_text := text\<rparr>))"

text \<open>
  The start of the process: \<open>disk\<close> is the text of \<open>users.json\<close>, \<open>None\<close> when reading it
  throws; then the file is written with the serialisation of the empty array, which is
  also what is parsed. The parsed value becomes \<open>users\<close>. The model keeps records, so
  it reads the parsed array as records \<open>{ id, name, email, role }\<close> with a number as id
  (\<open>users_of_json\<close>); a file of any other shape is outside the model
  (\<open>NotUserRecords\<close>).
\<close>

fun user_of_json :: "json \<Rightarrow> user option" where
  "user_of_json (JObj [(k1, JNum i), (k2, n), (k3, e), (k4, r)]) =
     (if k1 = ''id'' \<and> k2 = ''name'' \<and> k3 = ''email'' \<and> k4 = ''role''
      then Some \<lparr>user_id = i, name = n, email = e, role = r\<rparr> else None)"
| "user_of_json _ = None"

fun users_of_json :: "json \<Rightarrow> user list option" where
  "users_of_json (JArr xs) = those (map user_of_json xs)"
| "users_of_json _ = None"


definition startup :: "string option \<Rightarrow> error + event list \<times> state" where
  "startup disk =
     (let defaultData = JSON_stringify (JArr []);
          (w, localFile) =
            (case disk of
               Some text \<Rightarrow> ([], text)
             | None \<Rightarrow> ([Write defaultData], defaultData))
      in case JSON_parse localFile of
           None \<Rightarrow> Inl SyntaxError
         | Some v \<Rightarrow>
             (case users_of_json v of
                None \<Rightarrow> Inl NotUserRecords
              | Some us \<Rightarrow> Inr (w, \<lparr>users = us, file_text = localFile\<rparr>)))"


section \<open>Requests\<close>

text \<open>
  \<open>query.id\<close> as \<open>url.parse(req.url, true)\<close> gives it: absent, one string, or the
  array of the strings of a repeated parameter. \<open>body\<close> is what \<open>JSON.parse\<close> makes
  of the request's body text, \<open>None\<close> when it throws.
\<close>

datatype qval = QStr string | QArr "string list"

record request =
  req_method :: string
  pathname :: string
  query_id :: "qval option"
  headers_authorization :: "string option"
  body :: "json option"

definition AUTH_TOKEN :: string where
  "AUTH_TOKEN = ''my-secret-token''"

definition isAuthenticated :: "request \<Rightarrow> bool" where
  "isAuthenticated req = (headers_authorization req = Some (''Bearer '' @ AUTH_TOKEN))"

definition getRequestBody :: "request \<Rightarrow> json" where
  "getRequestBody req = (case body req of Some v \<Rightarrow> v | None \<Rightarrow> JObj [])"

text \<open>
  Reading a property \<open>name\<close>, \<open>email\<close> or \<open>role\<close> of a parsed body that is not
  \<open>null\<close>: the property's value for an object that has it, \<open>undefined\<close> (\<open>None\<close>)
  otherwise; numbers, booleans, strings and arrays have no such property. On \<open>null\<close>
  the read throws a TypeError, which the handlers below check first.
\<close>

fun property :: "json \<Rightarrow> string \<Rightarrow> json option" where
  "property (JObj kvs) k = map_of kvs k"
| "property _ k = None"

text \<open>ToBoolean on a value that may be \<open>undefined\<close>.\<close>

fun truthy :: "json option \<Rightarrow> bool" where
  "truthy None = False"
| "truthy (Some JNull) = False"
| "truthy (Some (JBool b)) = b"
| "truthy (Some (JNum i)) = (i \<noteq> 0)"
| "truthy (Some (JStr s)) = (s \<noteq> [])"
| "truthy (Some (JArr xs)) = True"
| "truthy (Some (JObj kvs)) = True"

text \<open>\<open>if (query.id)\<close>: a missing parameter and the empty string are falsy.\<close>

fun query_truthy :: "qval option \<Rightarrow> bool" where
  "query_truthy None = False"
| "query_truthy (Some (QStr s)) = (s \<noteq> [])"
| "query_truthy (Some (QArr ss)) = True"

fun join :: "string list \<Rightarrow> string" where
  "join [] = []"
| "join [s] = s"
| "join (s # t # ts) = s @ '','' @ join (t # ts)"

text \<open>
  \<open>u.id == query.id\<close> with a number on the left: the right side is converted to a
  number (an array through its \<open>toString\<close>, the elements joined by commas) and the
  numbers are compared. The conversion of a string to a number is the platform's;
  it is the parameter \<open>tn\<close>, which gives the integer a string denotes and \<open>None\<close>
  when it denotes none.
\<close>

fun query_string :: "qval \<Rightarrow> string" where
  "query_string (QStr s) = s"
| "query_string (QArr ss) = join ss"

definition loose_eq :: "(string \<Rightarrow> int option) \<Rightarrow> int \<Rightarrow> qval option \<Rightarrow> bool" where
  "loose_eq tn i q = (case q of None \<Rightarrow> False | Some v \<Rightarrow> tn (query_string v) = Some i)"

text \<open>\<open>Array.prototype.findIndex\<close>; \<open>None\<close> is the source's \<open>-1\<close>.\<close>

fun findIndex :: "('a \<Rightarrow> bool) \<Rightarrow> 'a list \<Rightarrow> nat option" where
  "findIndex p [] = None"
| "findIndex p (x # xs) =
     (if p x then Some 0 else (case findIndex p xs of None \<Rightarrow> None | Some i \<Rightarrow> Some (Suc i)))"

text \<open>\<open>users.splice(i, 1)\<close>: the array without its element at \<open>i\<close>.\<close>

definition splice1 :: "nat \<Rightarrow> 'a list \<Rightarrow> 'a list" where
  "splice1 i xs = take i xs @ drop (Suc i) xs"

text \<open>
  \<open>users.length > 0 ? Math.max(...users.map(u => u.id)) + 1 : 1\<close>: the greatest id of
  a non-empty array plus one.
\<close>

definition next_id :: "user list \<Rightarrow> int" where
  "next_id us = (case map user_id us of [] \<Rightarrow> 1 | i # ids \<Rightarrow> fold max ids i + 1)"

section \<open>The request handler\<close>

text \<open>
  A handler gives the effects it performs, in order, and the state it leaves; or the error
  it throws. Both handlers that read the body read \<open>body.name\<close> first, which throws a
  TypeError on \<open>null\<close> before anything is changed or sent.
\<close>

definition error_body :: "string \<Rightarrow> json option" where
  "error_body msg = Some (JObj [(''error'', JStr msg)])"

definition send :: "nat \<Rightarrow> json option \<Rightarrow> event" where
  "send st p = Send \<lparr>status = st, payload = p\<rparr>"

text \<open>
  \<open>if (v) target = v\<close> and \<open>v || fallback\<close>: the value when it is truthy, the old one
  otherwise.
\<close>

fun or_else :: "json option \<Rightarrow> json \<Rightarrow> json" where
  "or_else (Some v) d = (if truthy (Some v) then v else d)"
| "or_else None d = d"

definition handle_get ::
  "(string \<Rightarrow> int option) \<Rightarrow> state \<Rightarrow> request \<Rightarrow> error + event list \<times> state" where
  "handle_get tn s req =
     (if query_truthy (query_id req) then
        (case find (\<lambda>u. loose_eq tn (user_id u) (query_id req)) (users s) of
           Some u \<Rightarrow> Inr ([send 200 (Some (user_json u))], s)
         | None \<Rightarrow> Inr ([send 404 (error_body ''User not found'')], s))
      else Inr ([send 200 (Some (users_json (users s)))], s))"

text \<open>
  The object the POST handler builds from a body whose name and email are \<open>nm\<close> and
  \<open>em\<close>, for the array \<open>us\<close> of the moment. In \<open>handle_post\<close> the last branch of the
  case is never taken: a truthy value is not \<open>undefined\<close>.
\<close>

definition newUser :: "user list \<Rightarrow> json \<Rightarrow> json \<Rightarrow> json \<Rightarrow> user" where
  "newUser us b nm em =
     \<lparr>user_id = next_id us,
      name = nm,
      email = em,
      role = or_else (property b ''role'') (JStr ''viewer'')\<rparr>"

definition handle_post :: "state \<Rightarrow> request \<Rightarrow> error + event list \<times> state" where
  "handle_post s req =
     (let b = getRequestBody req in
      if b = JNull then Inl TypeError
      else if \<not> truthy (property b ''name'') \<or> \<not> truthy (property b ''email'') then
        Inr ([send 400 (error_body ''Name and email are required'')], s)
      else
        (case (property b ''name'', property b ''email'') of
           (Some nm, Some em) \<Rightarrow>
             (let u = newUser (users s) b nm em;
                  (w, s') = saveUsers (s\<lparr>users := users s @ [u]\<rparr>)
              in Inr (w @ [send 201 (Some (user_json u))], s'))
         | _ \<Rightarrow> Inr ([send 400 (error_body ''Name and email are required'')], s)))"

text \<open>
  The three assignments of the PUT handler, \<open>if (body.name) users[userIndex].name =
  body.name\<close> and the same for email and role, on the record \<open>u\<close>.
\<close>

definition assign_fields :: "json \<Rightarrow> user \<Rightarrow> user" where
  "assign_fields b u =
     (let u1 = u\<lparr>name := or_else (property b ''name'') (name u)\<rparr>;
          u2 = u1\<lparr>email := or_else (property b ''email'') (email u1)\<rparr>
      in u2\<lparr>role := or_else (property b ''role'') (role u2)\<rparr>)"

definition handle_put ::
  "(string \<Rightarrow> int option) \<Rightarrow> state \<Rightarrow> request \<Rightarrow> error + event list \<times> state" where
  "handle_put tn s req =
     (if \<not> query_truthy (query_id req) then
        Inr ([send 400 (error_body ''User ID is required'')], s)
      else
        (case findIndex (\<lambda>u. loose_eq tn (user_id u) (query_id req)) (users s) of
           None \<Rightarrow> Inr ([send 404 (error_body ''User not found'')], s)
         | Some userIndex \<Rightarrow>
             (let b = getRequestBody req in
              if b = JNull then Inl TypeError
              else
                (let u = assign_fields b (users s ! userIndex);
                     (w, s') = saveUsers (s\<lparr>users := (users s)[userIndex := u]\<rparr>)
                 in Inr (w @ [send 200 (Some (user_json u))], s')))))"

definition handle_delete ::
  "(string \<Rightarrow> int option) \<Rightarrow> state \<Rightarrow> request \<Rightarrow> error + event list \<times> state" where
  "handle_delete tn s req =
     (if \<not> query_truthy (query_id req) then
        Inr ([send 400 (error_body ''User ID is required'')], s)
      else
        (case findIndex (\<lambda>u. loose_eq tn (user_id u) (query_id req)) (users s) of
           None \<Rightarrow> Inr ([send 404 (error_body ''User not found'')], s)
         | Some userIndex \<Rightarrow>
             (let deletedUser = users s ! userIndex;
                  (w, s') = saveUsers (s\<lparr>users := splice1 userIndex (users s)\<rparr>)
              in Inr (w @ [send 200 (Some (JObj [(''message'', JStr ''User deleted''),
                                                 (''user'', user_json deletedUser)]))], s'))))"

definition handle ::
  "(string \<Rightarrow> int option) \<Rightarrow> state \<Rightarrow> request \<Rightarrow> error + event list \<times> state" where
  "handle tn s req =
     (if req_method req = ''OPTIONS'' then Inr ([send 200 None], s)
      else if \<not> isAuthenticated req then
        Inr ([send 401 (error_body ''Unauthorized. Use Bearer token.'')], s)
      else if pathname req = ''/users'' then
        (if req_method req = ''GET'' then handle_get tn s req
         else if req_method req = ''POST'' then handle_post s req
         else if req_method req = ''PUT'' then handle_put tn s req
         else if req_method req = ''DELETE'' then handle_delete tn s req
         else Inr ([send 405 (error_body ''Method not allowed'')], s))
      else Inr ([send 404 (error_body ''Route not found'')], s))"

text \<open>What a handled request answered: the status of the response it sent, if any.\<close>

fun sent_status :: "event list \<Rightarrow> nat option" where
  "sent_status [] = None"
| "sent_status (Write t # evs) = sent_status evs"
| "sent_status (Send r # evs) = Some (status r)"

fun response_status :: "error + event list \<times> state \<Rightarrow> nat option" where
  "response_status (Inl e) = None"
| "response_status (Inr (evs, s)) = sent_status evs"

section \<open>Sequences of requests\<close>





section \<open>Sample data\<close>

text \<open>
  A conversion for the samples below: the strings of decimal digits, read as numbers.
\<close>

definition decimal :: "string \<Rightarrow> int option" where
  "decimal s =
     (if s \<noteq> [] \<and> list_all (\<lambda>c. 48 \<le> (of_char c :: nat) \<and> of_char c \<le> (57 :: nat)) s
      then Some (foldl (\<lambda>a c. 10 * a + (of_char c - 48)) 0 s) else None)"

definition bearer :: "string option" where
  "bearer = Some ''Bearer my-secret-token''"

definition empty_store :: state where
  "empty_store = \<lparr>users = [], file_text = ''[]''\<rparr>"

definition ana :: user where
  "ana = \<lparr>user_id = 1, name = JStr ''Ana'', email = JStr ''a@x.com'', role = JStr ''viewer''\<rparr>"

definition bob :: user where
  "bob = \<lparr>user_id = 2, name = JStr ''Bob'', email = JStr ''b@x.com'', role = JStr ''admin''\<rparr>"

definition store2 :: state where
  "store2 = \<lparr>users = [ana, bob], file_text = JSON_stringify (users_json [ana, bob])\<rparr>"

definition post_ana :: request where
  "post_ana = \<lparr>req_method = ''POST'', pathname = ''/users'', query_id = None,
     headers_authorization = bearer,
     body = Some (JObj [(''name'', JStr ''Ana''), (''email'', JStr ''a@x.com'')])\<rparr>"

definition post_no_email :: request where
  "post_no_email = \<lparr>req_method = ''POST'', pathname = ''/users'', query_id = None,
     headers_authorization = bearer,
     body = Some (JObj [(''name'', JStr ''X'')])\<rparr>"

definition post_empty_role :: request where
  "post_empty_role = \<lparr>req_method = ''POST'', pathname = ''/users'', query_id = None,
     headers_authorization = bearer,
     body = Some (JObj [(''name'', JStr ''Cy''), (''email'', JStr ''c@x.com''), (''role'', JStr '''')])\<rparr>"

definition cy :: user where
  "cy = \<lparr>user_id = 3, name = JStr ''Cy'', email = JStr ''c@x.com'', role = JStr ''viewer''\<rparr>"

definition put_admin :: request where
  "put_admin = \<lparr>req_method = ''PUT'', pathname = ''/users'', query_id = Some (QStr ''1''),
     headers_authorization = bearer,
     body = Some (JObj [(''role'', JStr ''admin'')])\<rparr>"

definition put_empty_name :: request where
  "put_empty_name = \<lparr>req_method = ''PUT'', pathname = ''/users'', query_id = Some (QStr ''1''),
     headers_authorization = bearer,
     body = Some (JObj [(''name'', JStr '''')])\<rparr>"

definition delete_1 :: request where
  "delete_1 = \<lparr>req_method = ''DELETE'', pathname = ''/users'', query_id = Some (QStr ''1''),
     headers_authorization = bearer, body = None\<rparr>"

definition delete_2 :: request where
  "delete_2 = \<lparr>req_method = ''DELETE'', pathname = ''/users'', query_id = Some (QStr ''2''),
     headers_authorization = bearer, body = None\<rparr>"

definition ana3 :: user where
  "ana3 = \<lparr>user_id = 3, name = JStr ''Ana'', email = JStr ''a@x.com'', role = JStr ''viewer''\<rparr>"

definition put_null :: request where
  "put_null = \<lparr>req_method = ''PUT'', pathname = ''/users'', query_id = Some (QStr ''1''),
     headers_authorization = bearer, body = Some JNull\<rparr>"

definition post_empty_name :: request where
  "post_empty_name = \<lparr>req_method = ''POST'', pathname = ''/users'', query_id = None,
     headers_authorization = bearer,
     body = Some (JObj [(''name'', JStr ''''), (''email'', JStr ''d@x.com'')])\<rparr>"

definition post_null :: request where
  "post_null = \<lparr>req_method = ''POST'', pathname = ''/users'', query_id = None,
     headers_authorization = bearer, body = Some JNull\<rparr>"

definition get_all :: request where
  "get_all = \<lparr>req_method = ''GET'', pathname = ''/users'', query_id = None,
     headers_authorization = bearer, body = None\<rparr>"

definition get_unauthorized :: request where
  "get_unauthorized = \<lparr>req_method = ''GET'', pathname = ''/users'', query_id = None,
     headers_authorization = None, body = None\<rparr>"


definition options_any :: request where
  "options_any = \<lparr>req_method = ''OPTIONS'', pathname = ''/anything'', query_id = None,
     headers_authorization = None, body = None\<rparr>"

section \<open>Properties\<close>

lemma saveUsers_eq:
  "saveUsers s =
     ([Write (JSON_stringify (users_json (users s)))],
      s\<lparr>file_text := JSON_stringify (users_json (users s))\<rparr>)"
  by (simp add: saveUsers_def Let_def)

subsection \<open>The serialiser and the reader\<close>

subsubsection \<open>Digits\<close>

lemma char_of_48: "char_of (48 :: nat) = CHR ''0''"
  by code_simp

lemma of_char_digit: "d < 10 \<Longrightarrow> (of_char (char_of (48 + d :: nat)) :: nat) = 48 + d"
  by (simp add: of_char_of)

lemma is_digit_char_of: "d < 10 \<Longrightarrow> is_digit (char_of (48 + d :: nat))"
  by (simp add: is_digit_def of_char_digit)

lemma nat_digits_ne: "nat_digits n \<noteq> []"
  by (subst nat_digits.simps) simp

lemma nat_digits_all: "\<forall>c\<in>set (nat_digits n). is_digit c"
proof (induction n rule: nat_digits.induct)
  case (1 n)
  show ?case
  proof (cases "n < 10")
    case True
    then show ?thesis by (subst nat_digits.simps) (simp add: is_digit_char_of)
  next
    case False
    with 1 show ?thesis by (subst nat_digits.simps) (simp add: is_digit_char_of)
  qed
qed

lemma digits_value_snoc: "digits_value (ds @ [c]) = 10 * digits_value ds + (of_char c - 48)"
  by (simp add: digits_value_def)

lemma digits_value_nat_digits: "digits_value (nat_digits n) = n"
proof (induction n rule: nat_digits.induct)
  case (1 n)
  show ?case
  proof (cases "n < 10")
    case True
    then show ?thesis
      by (subst nat_digits.simps) (simp add: digits_value_def of_char_digit)
  next
    case False
    with 1 have "digits_value (nat_digits (n div 10)) = n div 10" by simp
    with False show ?thesis
      by (subst nat_digits.simps) (simp add: digits_value_snoc of_char_digit)
  qed
qed

lemma char_of_48_eq: "d < 10 \<Longrightarrow> char_of (48 + d :: nat) = CHR ''0'' \<Longrightarrow> d = 0"
  by (simp add: char_of_48 [symmetric] char_of_quasi_inj)

lemma nat_digits_leading_zero: "hd (nat_digits n) = CHR ''0'' \<Longrightarrow> n = 0"
proof (induction n rule: nat_digits.induct)
  case (1 n)
  show ?case
  proof (cases "n < 10")
    case True
    with "1.prems" show ?thesis
      by (subst (asm) nat_digits.simps) (simp add: char_of_48_eq)
  next
    case False
    with "1.prems" have "hd (nat_digits (n div 10)) = CHR ''0''"
      by (subst (asm) nat_digits.simps) (simp add: nat_digits_ne)
    with False "1.IH" have "n div 10 = 0" by simp
    with False show ?thesis by simp
  qed
qed

lemma nat_digits_0: "nat_digits 0 = ''0''"
  by (subst nat_digits.simps) (simp add: char_of_48)

lemma nat_digits_no_leading_zero: "\<not> (hd (nat_digits n) = CHR ''0'' \<and> tl (nat_digits n) \<noteq> [])"
  using nat_digits_leading_zero [of n] by (auto simp: nat_digits_0)

lemma not_digit_ok_rest: "ok_rest rest \<Longrightarrow> rest = [] \<or> \<not> is_digit (hd rest)"
  by (auto simp: ok_rest_def is_digit_def)

lemma span_digits:
  assumes "\<forall>c\<in>set ds. is_digit c" "rest = [] \<or> \<not> is_digit (hd rest)"
  shows "takeWhile is_digit (ds @ rest) = ds" "dropWhile is_digit (ds @ rest) = rest"
  using assms by (cases rest; simp add: takeWhile_append2 dropWhile_append2)+

lemma hd_nat_digits_not_minus: "hd (nat_digits n) \<noteq> CHR ''-''"
proof -
  from nat_digits_ne [of n] nat_digits_all [of n] have "is_digit (hd (nat_digits n))"
    by (cases "nat_digits n") simp_all
  then show ?thesis by (auto simp: is_digit_def)
qed

lemma parse_number_roundtrip:
  assumes "ok_rest rest"
  shows "parse_number (number_string i @ rest) = Some (JNum i, rest)"
proof -
  have tail: "\<not> (rest \<noteq> [] \<and> (hd rest = CHR ''.'' \<or> hd rest = CHR ''e'' \<or> hd rest = CHR ''E''))"
    using assms by (auto simp: ok_rest_def)
  note sp = span_digits [OF nat_digits_all not_digit_ok_rest [OF assms]]
  show ?thesis
  proof (cases "i < 0")
    case True
    then show ?thesis
      using tail nat_digits_no_leading_zero [of "nat (- i)"]
      by (simp add: parse_number_def number_string_def sp nat_digits_ne
            digits_value_nat_digits Let_def)
  next
    case False
    have "hd (nat_digits (nat i) @ rest) \<noteq> CHR ''-''"
      using hd_nat_digits_not_minus [of "nat i"] by (simp add: nat_digits_ne)
    with False show ?thesis
      using tail nat_digits_no_leading_zero [of "nat i"]
      by (simp add: parse_number_def number_string_def sp nat_digits_ne
            digits_value_nat_digits Let_def)
  qed
qed

subsubsection \<open>Strings\<close>

lemma hex_value_hex_digit: "d < 16 \<Longrightarrow> hex_value (hex_digit d) = Some d"
  by (auto simp: hex_value_def hex_digit_def of_char_of Let_def)

lemma hex_value_0: "hex_value (CHR ''0'') = Some 0"
  by (simp add: hex_value_def)

lemma unicode_escape_control:
  assumes "(of_char c :: nat) < 32"
  shows "unicode_escape (CHR ''0'') (CHR ''0'')
           (hex_digit (of_char c div 16)) (hex_digit (of_char c mod 16)) = Some c"
proof -
  from assms have d: "(of_char c :: nat) div 16 < 16" "(of_char c :: nat) mod 16 < 16" by simp_all
  have "char_of (16 * ((of_char c :: nat) div 16) + of_char c mod 16) = c" by simp
  then show ?thesis
    by (simp add: unicode_escape_def hex_value_0 hex_value_hex_digit [OF d(1)]
          hex_value_hex_digit [OF d(2)])
qed

lemma parse_chars_escape:
  "parse_chars (escape_char c @ t) =
     (case parse_chars t of None \<Rightarrow> None | Some (s, r) \<Rightarrow> Some (c # s, r))"
proof -
  consider (two) "c \<in> {CHR 0x08, CHR 0x09, CHR 0x0A, CHR 0x0C, CHR 0x0D, CHR 0x22, CHR 0x5C}"
    | (ctl) "c \<notin> {CHR 0x08, CHR 0x09, CHR 0x0A, CHR 0x0C, CHR 0x0D, CHR 0x22, CHR 0x5C}"
        "(of_char c :: nat) < 32"
    | (plain) "c \<notin> {CHR 0x08, CHR 0x09, CHR 0x0A, CHR 0x0C, CHR 0x0D, CHR 0x22, CHR 0x5C}"
        "\<not> (of_char c :: nat) < 32"
    by blast
  then show ?thesis
  proof cases
    case two
    then show ?thesis
      by (auto simp: escape_char_def simple_escape_def)
  next
    case ctl
    then show ?thesis
      by (simp add: escape_char_def unicode_escape_control)
  next
    case plain
    then show ?thesis
      by (simp add: escape_char_def)
  qed
qed

lemma parse_chars_roundtrip:
  "parse_chars (concat (map escape_char s) @ CHR 0x22 # rest) = Some (s, rest)"
  by (induction s) (simp_all add: parse_chars_escape)

lemma parse_chars_quote:
  "quote s @ rest = CHR 0x22 # t \<Longrightarrow> parse_chars t = Some (s, rest)"
  by (auto simp: quote_def parse_chars_roundtrip)

subsubsection \<open>White space\<close>

lemma skip_ws_Nil: "skip_ws [] = []"
  by (simp add: skip_ws_def)

lemma skip_ws_Cons: "\<not> is_ws c \<Longrightarrow> skip_ws (c # t) = c # t"
  by (simp add: skip_ws_def)

lemma skip_ws_newline: "skip_ws (newline n @ t) = skip_ws t"
proof -
  have "\<forall>c\<in>set (newline n). is_ws c" by (auto simp: newline_def is_ws_def)
  then show ?thesis by (simp add: skip_ws_def dropWhile_append2)
qed

lemma skip_ws_space: "skip_ws (CHR '' '' # t) = skip_ws t"
  by (simp add: skip_ws_def is_ws_def)

subsubsection \<open>How a serialised value starts\<close>

lemma number_string_start:
  "\<exists>c t. number_string i = c # t \<and> (c = CHR ''-'' \<or> is_digit c)"
proof (cases "i < 0")
  case True
  then show ?thesis by (simp add: number_string_def)
next
  case False
  from nat_digits_ne [of "nat i"] nat_digits_all [of "nat i"]
  obtain c t where "nat_digits (nat i) = c # t" "is_digit c"
    by (cases "nat_digits (nat i)") auto
  with False show ?thesis by (simp add: number_string_def)
qed

lemma serialize_start: "\<exists>c t. serialize n v = c # t \<and> value_start c"
proof (cases v)
  case (JNum i)
  from number_string_start [of i] obtain c t where
    "number_string i = c # t" "c = CHR ''-'' \<or> is_digit c" by blast
  with JNum show ?thesis
    by (auto simp: value_start_def is_ws_def is_digit_def)
next
  case (JArr xs)
  then show ?thesis by (cases xs) (simp_all add: value_start_def is_ws_def)
next
  case (JObj ms)
  then show ?thesis by (cases ms) (simp_all add: value_start_def is_ws_def)
qed (simp_all add: value_start_def is_ws_def quote_def)

lemma serialize_elements_start:
  "xs \<noteq> [] \<Longrightarrow> \<exists>c t. serialize_elements n xs = c # t \<and> value_start c"
proof (cases xs)
  case Nil
  assume "xs \<noteq> []"
  with Nil show ?thesis by simp
next
  case (Cons x ys)
  from serialize_start [of n x] obtain c t where "serialize n x = c # t" "value_start c"
    by blast
  with Cons show ?thesis by (cases ys) simp_all
qed

lemma serialize_members_start:
  "ms \<noteq> [] \<Longrightarrow> \<exists>t. serialize_members n ms = CHR 0x22 # t"
proof (cases ms)
  case Nil
  assume "ms \<noteq> []"
  with Nil show ?thesis by simp
next
  case (Cons m ys)
  obtain k v where "m = (k, v)" by (cases m)
  with Cons show ?thesis by (cases ys) (simp_all add: quote_def)
qed

lemma skip_ws_serialize: "skip_ws (serialize n v @ rest) = serialize n v @ rest"
proof -
  from serialize_start [of n v] obtain c t where "serialize n v = c # t" "value_start c"
    by blast
  then show ?thesis by (simp add: skip_ws_Cons value_start_def)
qed

lemma skip_ws_serialize_elements:
  "xs \<noteq> [] \<Longrightarrow> skip_ws (serialize_elements n xs @ rest) = serialize_elements n xs @ rest"
proof -
  assume "xs \<noteq> []"
  from serialize_elements_start [OF this, of n] obtain c t where
    "serialize_elements n xs = c # t" "value_start c"
    by blast
  then show ?thesis by (simp add: skip_ws_Cons value_start_def)
qed

lemma skip_ws_serialize_members:
  "ms \<noteq> [] \<Longrightarrow> skip_ws (serialize_members n ms @ rest) = serialize_members n ms @ rest"
proof -
  assume "ms \<noteq> []"
  from serialize_members_start [OF this, of n] obtain t where
    "serialize_members n ms = CHR 0x22 # t"
    by blast
  then show ?thesis by (simp add: skip_ws_Cons is_ws_def)
qed

subsubsection \<open>One step of the parser on a serialised text\<close>

lemma parse_value_number:
  assumes "ok_rest rest"
  shows "parse_value (Suc f) (number_string i @ rest) = Some (JNum i, rest)"
proof -
  from number_string_start [of i] obtain c t where
    c: "number_string i = c # t" "c = CHR ''-'' \<or> is_digit c" by blast
  from c(2) have "c \<noteq> CHR ''n''" "c \<noteq> CHR ''t''" "c \<noteq> CHR ''f''" "c \<noteq> CHR 0x22"
    "c \<noteq> CHR ''[''" "c \<noteq> CHR ''{''"
    by (auto simp: is_digit_def)
  then have "parse_value (Suc f) (c # t @ rest) = parse_number (c # t @ rest)"
    by simp
  with c(1) parse_number_roundtrip [OF assms, of i] show ?thesis by simp
qed

lemma parse_value_string:
  "parse_value (Suc f) (quote s @ rest) = Some (JStr s, rest)"
  by (simp add: quote_def parse_chars_roundtrip)

lemma parse_value_array:
  assumes "xs \<noteq> []"
  shows "parse_value (Suc f) (CHR ''['' # newline k @ serialize_elements k xs @ rest) =
     (case parse_elements f (serialize_elements k xs @ rest) of
        None \<Rightarrow> None | Some (ys, r) \<Rightarrow> Some (JArr ys, r))"
proof -
  from serialize_elements_start [OF assms, of k] obtain c t where
    c: "serialize_elements k xs = c # t" "value_start c" by blast
  then have "skip_ws (newline k @ serialize_elements k xs @ rest) = c # t @ rest"
    by (simp add: skip_ws_newline skip_ws_Cons value_start_def)
  with c show ?thesis by (simp add: value_start_def)
qed

lemma parse_value_object:
  assumes "ms \<noteq> []"
  shows "parse_value (Suc f) (CHR ''{'' # newline k @ serialize_members k ms @ rest) =
     (case parse_members f (serialize_members k ms @ rest) of
        None \<Rightarrow> None | Some (ys, r) \<Rightarrow> Some (JObj ys, r))"
proof -
  from serialize_members_start [OF assms, of k] obtain t where
    c: "serialize_members k ms = CHR 0x22 # t" by blast
  then have "skip_ws (newline k @ serialize_members k ms @ rest) = CHR 0x22 # t @ rest"
    by (simp add: skip_ws_newline skip_ws_Cons is_ws_def)
  with c show ?thesis by simp
qed

lemma parse_members_step:
  "parse_members (Suc f) (quote k @ '': '' @ serialize n v @ rest) =
     (case parse_value f (serialize n v @ rest) of
        None \<Rightarrow> None
      | Some (v', r3) \<Rightarrow>
          (case skip_ws r3 of
             [] \<Rightarrow> None
           | c3 # r4 \<Rightarrow>
               if c3 = CHR '','' then
                 (case parse_members f (skip_ws r4) of
                    None \<Rightarrow> None
                  | Some (ms, r5) \<Rightarrow> Some ((k, v') # ms, r5))
               else if c3 = CHR ''}'' then Some ([(k, v')], r4)
               else None))"
  by (simp add: quote_def parse_chars_roundtrip skip_ws_Cons is_ws_def skip_ws_space
      skip_ws_serialize)

lemma need_pos: "0 < need v"
  by (cases v) simp_all

lemma ok_rest_newline: "ok_rest (newline m @ t)"
  by (simp add: ok_rest_def newline_def)

lemma ok_rest_comma: "ok_rest (CHR '','' # t)"
  by (simp add: ok_rest_def)

lemma skip_ws_close:
  "skip_ws (newline m @ CHR '']'' # rest) = CHR '']'' # rest"
  "skip_ws (newline m @ CHR ''}'' # rest) = CHR ''}'' # rest"
  by (simp_all add: skip_ws_newline skip_ws_Cons is_ws_def)

lemma skip_ws_comma: "skip_ws (CHR '','' # t) = CHR '','' # t"
  by (simp add: skip_ws_Cons is_ws_def)

lemma parse_serialize:
  "need v \<le> f \<Longrightarrow> ok_rest rest \<Longrightarrow> parse_value f (serialize n v @ rest) = Some (v, rest)"
  "xs \<noteq> [] \<Longrightarrow> need_elements xs \<le> f \<Longrightarrow>
     parse_elements f (serialize_elements n xs @ newline m @ CHR '']'' # rest) = Some (xs, rest)"
  "ms \<noteq> [] \<Longrightarrow> need_members ms \<le> f \<Longrightarrow>
     parse_members f (serialize_members n ms @ newline m @ CHR ''}'' # rest) = Some (ms, rest)"
proof (induction n v and n xs and n ms arbitrary: f rest and f m rest and f m rest
    rule: serialize_serialize_elements_serialize_members.induct)
  case (1 n)
  then obtain g where "f = Suc g" by (cases f) simp_all
  then show ?case by (simp add: literal_def)
next
  case (2 n b)
  then obtain g where "f = Suc g" by (cases f) simp_all
  then show ?case by (simp add: literal_def)
next
  case (3 n i)
  then obtain g where "f = Suc g" by (cases f) simp_all
  with 3 show ?case by (simp add: parse_value_number)
next
  case (4 n s)
  then obtain g where "f = Suc g" by (cases f) simp_all
  then show ?case by (simp add: parse_value_string)
next
  case (5 n)
  then obtain g where "f = Suc g" by (cases f) simp_all
  then show ?case by (simp add: skip_ws_Cons is_ws_def)
next
  case (6 n x xs)
  from "6.prems" obtain g where g: "f = Suc g" "need_elements (x # xs) \<le> g"
    by (cases f) simp_all
  have "parse_elements g (serialize_elements (n + 2) (x # xs) @ newline n @ CHR '']'' # rest)
      = Some (x # xs, rest)"
    using g(2) by (intro "6.IH") simp_all
  then have "parse_value (Suc g)
      (CHR ''['' # newline (n + 2) @ serialize_elements (n + 2) (x # xs) @ newline n @ CHR '']'' # rest)
      = Some (JArr (x # xs), rest)"
    by (subst parse_value_array) simp_all
  with g(1) show ?case by simp
next
  case (7 n)
  then obtain g where "f = Suc g" by (cases f) simp_all
  then show ?case by (simp add: skip_ws_Cons is_ws_def)
next
  case (8 n m ms)
  from "8.prems" obtain g where g: "f = Suc g" "need_members (m # ms) \<le> g"
    by (cases f) simp_all
  have "parse_members g (serialize_members (n + 2) (m # ms) @ newline n @ CHR ''}'' # rest)
      = Some (m # ms, rest)"
    using g(2) by (intro "8.IH") simp_all
  then have "parse_value (Suc g)
      (CHR ''{'' # newline (n + 2) @ serialize_members (n + 2) (m # ms) @ newline n @ CHR ''}'' # rest)
      = Some (JObj (m # ms), rest)"
    by (subst parse_value_object) simp_all
  with g(1) show ?case by simp
next
  case (9 n)
  then show ?case by simp
next
  case (10 n x)
  from "10.prems" obtain g where g: "f = Suc g" "need x \<le> g"
    by (cases f) simp_all
  have "parse_value g (serialize n x @ newline m @ CHR '']'' # rest)
      = Some (x, newline m @ CHR '']'' # rest)"
    using g(2) by (intro "10.IH") (simp_all add: ok_rest_newline)
  with g(1) show ?case by (simp add: skip_ws_close)
next
  case (11 n x y ys)
  from "11.prems" obtain g where g: "f = Suc g" "need x \<le> g" "need_elements (y # ys) \<le> g"
    by (cases f) simp_all
  let ?tail = "serialize_elements n (y # ys) @ newline m @ CHR '']'' # rest"
  have a: "parse_value g (serialize n x @ CHR '','' # newline n @ ?tail)
      = Some (x, CHR '','' # newline n @ ?tail)"
    using g(2) by (intro "11.IH"(1)) (simp_all add: ok_rest_comma)
  have b: "parse_elements g ?tail = Some (y # ys, rest)"
    using g(3) by (intro "11.IH"(2)) simp_all
  have c: "skip_ws (newline n @ ?tail) = ?tail"
    by (simp add: skip_ws_newline skip_ws_serialize_elements)
  from a b c g(1) show ?case by (simp add: skip_ws_comma)
next
  case (12 n)
  then show ?case by simp
next
  case (13 n k v)
  from "13.prems" obtain g where g: "f = Suc g" "need v \<le> g"
    by (cases f) simp_all
  have a: "parse_value g (serialize n v @ newline m @ CHR ''}'' # rest)
      = Some (v, newline m @ CHR ''}'' # rest)"
    using g(2) by (intro "13.IH") (simp_all add: ok_rest_newline)
  have "parse_members (Suc g) (quote k @ '': '' @ serialize n v @ newline m @ CHR ''}'' # rest)
      = Some ([(k, v)], rest)"
    by (subst parse_members_step) (simp add: a skip_ws_close)
  with g(1) show ?case by simp
next
  case (14 n k v m' ms)
  from "14.prems" obtain g where g: "f = Suc g" "need v \<le> g" "need_members (m' # ms) \<le> g"
    by (cases f) simp_all
  let ?tail = "serialize_members n (m' # ms) @ newline m @ CHR ''}'' # rest"
  have a: "parse_value g (serialize n v @ CHR '','' # newline n @ ?tail)
      = Some (v, CHR '','' # newline n @ ?tail)"
    using g(2) by (intro "14.IH"(1)) (simp_all add: ok_rest_comma)
  have b: "parse_members g ?tail = Some (m' # ms, rest)"
    using g(3) by (intro "14.IH"(2)) simp_all
  have c: "skip_ws (newline n @ ?tail) = ?tail"
    by (simp add: skip_ws_newline skip_ws_serialize_members)
  have "parse_members (Suc g) (quote k @ '': '' @ serialize n v @ CHR '','' # newline n @ ?tail)
      = Some ((k, v) # m' # ms, rest)"
    by (subst parse_members_step) (simp add: a b c skip_ws_comma)
  with g(1) show ?case by simp
qed

lemma need_le_length:
  "need v \<le> length (serialize n v)"
  "need_elements xs \<le> Suc (length (serialize_elements n xs))"
  "need_members ms \<le> Suc (length (serialize_members n ms))"
proof (induction n v and n xs and n ms
    rule: serialize_serialize_elements_serialize_members.induct)
  case (3 n i)
  from number_string_start [of i] show ?case by auto
next
  case (4 n s)
  show ?case by (simp add: quote_def)
qed (auto simp: newline_def)

lemma JSON_parse_stringify: "JSON_parse (JSON_stringify v) = Some v"
proof -
  have "parse_value (length (serialize 0 v)) (serialize 0 v @ []) = Some (v, [])"
    by (rule parse_serialize(1)) (simp_all add: need_le_length ok_rest_def)
  moreover have "skip_ws (serialize 0 v) = serialize 0 v"
    using skip_ws_serialize [of 0 v "[]"] by simp
  ultimately show ?thesis
    by (simp add: JSON_parse_def JSON_stringify_def skip_ws_Nil)
qed

lemma user_of_json_user_json: "user_of_json (user_json u) = Some u"
  by (simp add: user_json_def)

lemma users_of_json_users_json: "users_of_json (users_json us) = Some us"
  by (induction us) (simp_all add: users_json_def user_of_json_user_json)

lemma startup_without_file:
  "startup None = Inr ([Write ''[]''], \<lparr>users = [], file_text = ''[]''\<rparr>)"
proof -
  have "JSON_parse ''[]'' = Some (JArr [])"
    using JSON_parse_stringify [of "JArr []"] by (simp add: JSON_stringify_def)
  then show ?thesis by (simp add: startup_def JSON_stringify_def Let_def)
qed

lemma serialize_example:
  \<open>JSON_stringify (users_json [ana]) =
     ''[\<newline>  {\<newline>    "id": 1,\<newline>    "name": "Ana",\<newline>    "email": "a@x.com",\<newline>    "role": "viewer"\<newline>  }\<newline>]''\<close>
  by code_simp

lemma parse_example:
  \<open>JSON_parse ''[{"id":1,"name":"Ana","email":"a@x.com","role":"viewer"}]'' = Some (users_json [ana])\<close>
  by code_simp

subsection \<open>The handlers\<close>

lemmas handler_defs = handle_def handle_get_def handle_post_def handle_put_def handle_delete_def

lemma findIndex_Some:
  "findIndex p xs = Some i \<Longrightarrow> i < length xs \<and> p (xs ! i) \<and> (\<forall>j<i. \<not> p (xs ! j))"
proof (induction xs arbitrary: i)
  case Nil then show ?case by simp
next
  case (Cons x xs)
  show ?case
  proof (cases "p x")
    case True with Cons.prems show ?thesis by simp
  next
    case False
    with Cons.prems obtain k where k: "findIndex p xs = Some k" "i = Suc k"
      by (auto split: option.splits)
    from Cons.IH [OF k(1)] False k(2) show ?thesis
      by (auto simp: less_Suc_eq_0_disj)
  qed
qed

lemma handle_users_route:
  assumes "req_method req \<noteq> ''OPTIONS''" "isAuthenticated req" "pathname req = ''/users''"
  shows "handle tn s req =
      (if req_method req = ''GET'' then handle_get tn s req
       else if req_method req = ''POST'' then handle_post s req
       else if req_method req = ''PUT'' then handle_put tn s req
       else if req_method req = ''DELETE'' then handle_delete tn s req
       else Inr ([send 405 (error_body ''Method not allowed'')], s))"
  using assms by (simp add: handle_def)

lemma handle_post_created:
  assumes "getRequestBody req = b" "b \<noteq> JNull"
    and "property b ''name'' = Some nm" "truthy (Some nm)"
    and "property b ''email'' = Some em" "truthy (Some em)"
  shows "handle_post s req =
     Inr ([Write (JSON_stringify (users_json (users s @ [newUser (users s) b nm em]))),
           send 201 (Some (user_json (newUser (users s) b nm em)))],
          \<lparr>users = users s @ [newUser (users s) b nm em],
           file_text = JSON_stringify (users_json (users s @ [newUser (users s) b nm em]))\<rparr>)"
  using assms by (simp add: handle_post_def saveUsers_eq Let_def)

lemma handle_post_rejected:
  assumes "getRequestBody req \<noteq> JNull"
    and "\<not> truthy (property (getRequestBody req) ''name'') \<or> \<not> truthy (property (getRequestBody req) ''email'')"
  shows "handle_post s req = Inr ([send 400 (error_body ''Name and email are required'')], s)"
  using assms by (auto simp add: handle_post_def Let_def)

lemma handle_put_updated:
  assumes "query_truthy (query_id req)"
    and "findIndex (\<lambda>u. loose_eq tn (user_id u) (query_id req)) (users s) = Some i"
    and "getRequestBody req = b" "b \<noteq> JNull"
  shows "handle_put tn s req =
     Inr ([Write (JSON_stringify (users_json ((users s)[i := assign_fields b (users s ! i)]))),
           send 200 (Some (user_json (assign_fields b (users s ! i))))],
          \<lparr>users = (users s)[i := assign_fields b (users s ! i)],
           file_text = JSON_stringify (users_json ((users s)[i := assign_fields b (users s ! i)]))\<rparr>)"
  using assms by (simp add: handle_put_def saveUsers_eq Let_def)

lemma handle_delete_removed:
  assumes "query_truthy (query_id req)"
    and "findIndex (\<lambda>u. loose_eq tn (user_id u) (query_id req)) (users s) = Some i"
  shows "handle_delete tn s req =
     Inr ([Write (JSON_stringify (users_json (splice1 i (users s)))),
           send 200 (Some (JObj [(''message'', JStr ''User deleted''), (''user'', user_json (users s ! i))]))],
          \<lparr>users = splice1 i (users s),
           file_text = JSON_stringify (users_json (splice1 i (users s)))\<rparr>)"
  using assms by (simp add: handle_delete_def saveUsers_eq Let_def)


lemma null_body_throws:
  assumes "isAuthenticated req" "pathname req = ''/users''" "body req = Some JNull"
  shows "req_method req = ''POST'' \<Longrightarrow> handle tn s req = Inl TypeError"
    and "req_method req = ''PUT'' \<Longrightarrow> query_truthy (query_id req) \<Longrightarrow>
         findIndex (\<lambda>u. loose_eq tn (user_id u) (query_id req)) (users s) = Some i \<Longrightarrow>
         handle tn s req = Inl TypeError"
  using assms by (simp_all add: handler_defs getRequestBody_def)


lemma handle_cases [consumes 1, case_names same create update delete]:
  assumes "handle tn s req = Inr (evs, s')"
  obtains (same) "s' = s" "\<exists>st p. evs = [send st p] \<and> st \<noteq> 201"
  | (create) b nm em where "req_method req = ''POST''" "getRequestBody req = b" "b \<noteq> JNull"
      "property b ''name'' = Some nm" "truthy (Some nm)"
      "property b ''email'' = Some em" "truthy (Some em)"
      "users s' = users s @ [newUser (users s) b nm em]"
      "file_text s' = JSON_stringify (users_json (users s'))"
      "evs = [Write (file_text s'), send 201 (Some (user_json (newUser (users s) b nm em)))]"
  | (update) i b where "req_method req = ''PUT''" "i < length (users s)"
      "findIndex (\<lambda>u. loose_eq tn (user_id u) (query_id req)) (users s) = Some i"
      "getRequestBody req = b" "b \<noteq> JNull"
      "users s' = (users s)[i := assign_fields b (users s ! i)]"
      "file_text s' = JSON_stringify (users_json (users s'))"
      "evs = [Write (file_text s'), send 200 (Some (user_json (assign_fields b (users s ! i))))]"
  | (delete) i where "req_method req = ''DELETE''" "i < length (users s)"
      "findIndex (\<lambda>u. loose_eq tn (user_id u) (query_id req)) (users s) = Some i"
      "users s' = splice1 i (users s)"
      "file_text s' = JSON_stringify (users_json (users s'))"
      "evs = [Write (file_text s'),
              send 200 (Some (JObj [(''message'', JStr ''User deleted''),
                                    (''user'', user_json (users s ! i))]))]"
proof -
  have route: "handle tn s req =
      (if req_method req = ''GET'' then handle_get tn s req
       else if req_method req = ''POST'' then handle_post s req
       else if req_method req = ''PUT'' then handle_put tn s req
       else if req_method req = ''DELETE'' then handle_delete tn s req
       else Inr ([send 405 (error_body ''Method not allowed'')], s))"
    if "\<not> (req_method req = ''OPTIONS'' \<or> \<not> isAuthenticated req \<or> pathname req \<noteq> ''/users'')"
    using that by (simp add: handle_def)
  consider (o) "req_method req = ''OPTIONS'' \<or> \<not> isAuthenticated req \<or> pathname req \<noteq> ''/users''"
    | (g) "req_method req = ''GET''" "handle tn s req = handle_get tn s req"
    | (po) "req_method req = ''POST''" "handle tn s req = handle_post s req"
    | (pu) "req_method req = ''PUT''" "handle tn s req = handle_put tn s req"
    | (d) "req_method req = ''DELETE''" "handle tn s req = handle_delete tn s req"
    | (m) "handle tn s req = Inr ([send 405 (error_body ''Method not allowed'')], s)"
    using route by (cases "req_method req = ''OPTIONS'' \<or> \<not> isAuthenticated req \<or> pathname req \<noteq> ''/users''") (simp_all, metis)
  then show thesis
  proof cases
    case o
    with assms show thesis
      by (intro same) (auto simp: handle_def split: if_splits)
  next
    case g
    with assms show thesis
      by (intro same) (auto simp: handle_get_def split: if_splits option.splits)
  next
    case m
    with assms show thesis by (intro same) auto
  next
    case po
    show thesis
    proof (cases "truthy (property (getRequestBody req) ''name'') \<and> truthy (property (getRequestBody req) ''email'')")
      case False
      with po assms show thesis
        by (intro same) (auto simp: handle_post_def Let_def split: if_splits)
    next
      case True
      from po assms have nn: "getRequestBody req \<noteq> JNull"
        by (auto simp: handle_post_def Let_def split: if_splits)
      from True obtain nm em where v: "property (getRequestBody req) ''name'' = Some nm"
        "property (getRequestBody req) ''email'' = Some em"
        by (cases "property (getRequestBody req) ''name''"; cases "property (getRequestBody req) ''email''") auto
      from handle_post_created [OF refl nn v(1) _ v(2), of s] True v po assms
      show thesis by (intro create [of "getRequestBody req" nm em]) auto
    qed
  next
    case pu
    show thesis
    proof (cases "query_truthy (query_id req)")
      case False
      with pu assms show thesis by (intro same) (auto simp: handle_put_def)
    next
      case qt: True
      show thesis
      proof (cases "findIndex (\<lambda>u. loose_eq tn (user_id u) (query_id req)) (users s)")
        case None
        with qt pu assms show thesis by (intro same) (auto simp: handle_put_def)
      next
        case (Some i)
        from pu assms qt Some have nn: "getRequestBody req \<noteq> JNull"
          by (auto simp: handle_put_def Let_def split: if_splits)
        from handle_put_updated [OF qt Some refl nn] pu assms findIndex_Some [OF Some] Some nn
        show thesis by (intro update [of i "getRequestBody req"]) auto
      qed
    qed
  next
    case d
    show thesis
    proof (cases "query_truthy (query_id req)")
      case False
      with d assms show thesis by (intro same) (auto simp: handle_delete_def)
    next
      case qt: True
      show thesis
      proof (cases "findIndex (\<lambda>u. loose_eq tn (user_id u) (query_id req)) (users s)")
        case None
        with qt d assms show thesis by (intro same) (auto simp: handle_delete_def)
      next
        case (Some i)
        from handle_delete_removed [OF qt Some] d assms findIndex_Some [OF Some] Some
        show thesis by (intro delete [of i]) auto
      qed
    qed
  qed
qed




lemma or_else_truthy: "truthy (Some v) \<Longrightarrow> or_else (Some v) d = v"
  by simp

lemma or_else_falsy: "\<not> truthy x \<Longrightarrow> or_else x d = d"
  by (cases x) simp_all
















subsection \<open>The samples, evaluated\<close>

lemmas sample_defs = post_ana_def post_no_email_def post_empty_role_def put_admin_def
  put_empty_name_def delete_1_def delete_2_def put_null_def post_null_def
  post_empty_name_def ana3_def get_all_def get_unauthorized_def options_any_def bearer_def
  empty_store_def store2_def ana_def bob_def cy_def

lemmas eval_defs = handler_defs isAuthenticated_def AUTH_TOKEN_def getRequestBody_def
  newUser_def assign_fields_def next_id_def saveUsers_eq send_def error_body_def
  loose_eq_def decimal_def splice1_def Let_def


lemma handle_put_empty_name:
  "handle decimal store2 put_empty_name =
     Inr ([Write (JSON_stringify (users_json [ana, bob])),
           Send \<lparr>status = 200, payload = Some (user_json ana)\<rparr>], store2)"
  by (simp add: eval_defs sample_defs)

lemma handle_delete_1:
  "handle decimal store2 delete_1 =
     Inr ([Write (JSON_stringify (users_json [bob])),
           Send \<lparr>status = 200,
                 payload = Some (JObj [(''message'', JStr ''User deleted''), (''user'', user_json ana)])\<rparr>],
          \<lparr>users = [bob], file_text = JSON_stringify (users_json [bob])\<rparr>)"
  by (simp add: eval_defs sample_defs)

subsection \<open>The claims\<close>






text \<open>
  Claim C3, as amended. For an authorised POST on \<open>/users\<close> with a parsed body other than
  \<open>null\<close>: when the body's name or email is missing or falsy, the answer is 400 with the
  message \<open>Name and email are required\<close> and the state is unchanged; otherwise the answer
  is 201 with the created record, appended to the array, whose name and email are the
  body's and whose role is the body's role when that is truthy and \<open>viewer\<close> otherwise.
\<close>

theorem post_validates_name_and_email:
  assumes "req_method req = ''POST''" "pathname req = ''/users''" "isAuthenticated req"
    and "getRequestBody req = b" "b \<noteq> JNull"
  shows "(\<not> truthy (property b ''name'') \<or> \<not> truthy (property b ''email'') \<longrightarrow>
            handle tn s req =
              Inr ([Send \<lparr>status = 400,
                          payload = Some (JObj [(''error'', JStr ''Name and email are required'')])\<rparr>], s))
       \<and> (truthy (property b ''name'') \<and> truthy (property b ''email'') \<longrightarrow>
            (\<exists>u. handle tn s req =
                    Inr ([Write (JSON_stringify (users_json (users s @ [u]))),
                          Send \<lparr>status = 201, payload = Some (user_json u)\<rparr>],
                         \<lparr>users = users s @ [u],
                          file_text = JSON_stringify (users_json (users s @ [u]))\<rparr>)
               \<and> property b ''name'' = Some (name u)
               \<and> property b ''email'' = Some (email u)
               \<and> (truthy (property b ''role'') \<longrightarrow> property b ''role'' = Some (role u))
               \<and> (\<not> truthy (property b ''role'') \<longrightarrow> role u = JStr ''viewer'')))"
proof -
  have h: "handle tn s req = handle_post s req"
    using assms(1-3) by (simp add: handle_users_route)
  have rej: "\<not> truthy (property b ''name'') \<or> \<not> truthy (property b ''email'') \<Longrightarrow>
      handle tn s req =
        Inr ([Send \<lparr>status = 400,
                    payload = Some (JObj [(''error'', JStr ''Name and email are required'')])\<rparr>], s)"
    using handle_post_rejected [of req s] assms(4,5) h
    by (simp add: send_def error_body_def)
  have acc: "\<exists>u. handle tn s req =
                    Inr ([Write (JSON_stringify (users_json (users s @ [u]))),
                          Send \<lparr>status = 201, payload = Some (user_json u)\<rparr>],
                         \<lparr>users = users s @ [u],
                          file_text = JSON_stringify (users_json (users s @ [u]))\<rparr>)
               \<and> property b ''name'' = Some (name u)
               \<and> property b ''email'' = Some (email u)
               \<and> (truthy (property b ''role'') \<longrightarrow> property b ''role'' = Some (role u))
               \<and> (\<not> truthy (property b ''role'') \<longrightarrow> role u = JStr ''viewer'')"
    if t: "truthy (property b ''name'')" "truthy (property b ''email'')"
  proof -
    from t obtain nm em where v: "property b ''name'' = Some nm" "property b ''email'' = Some em"
      by (cases "property b ''name''"; cases "property b ''email''") auto
    with t have tv: "truthy (Some nm)" "truthy (Some em)" by simp_all
    have r: "truthy (property b ''role'') \<Longrightarrow>
        property b ''role'' = Some (or_else (property b ''role'') (JStr ''viewer''))"
      by (cases "property b ''role''") auto
    from handle_post_created [OF assms(4,5) v(1) tv(1) v(2) tv(2), of s] h v r
    show ?thesis
      by (intro exI [of _ "newUser (users s) b nm em"])
         (auto simp: send_def newUser_def or_else_falsy)
  qed
  from rej acc show ?thesis by blast
qed

theorem post_validates_name_and_email_witness:
  "req_method post_no_email = ''POST'' \<and> pathname post_no_email = ''/users''
   \<and> isAuthenticated post_no_email
   \<and> getRequestBody post_no_email = JObj [(''name'', JStr ''X'')]
   \<and> \<not> truthy (property (JObj [(''name'', JStr ''X'')]) ''email'')
   \<and> handle decimal store2 post_no_email =
        Inr ([Send \<lparr>status = 400,
                    payload = Some (JObj [(''error'', JStr ''Name and email are required'')])\<rparr>], store2)
   \<and> req_method post_ana = ''POST'' \<and> pathname post_ana = ''/users'' \<and> isAuthenticated post_ana
   \<and> getRequestBody post_ana = JObj [(''name'', JStr ''Ana''), (''email'', JStr ''a@x.com'')]
   \<and> truthy (property (JObj [(''name'', JStr ''Ana''), (''email'', JStr ''a@x.com'')]) ''name'')
   \<and> truthy (property (JObj [(''name'', JStr ''Ana''), (''email'', JStr ''a@x.com'')]) ''email'')
   \<and> (\<exists>u. handle decimal empty_store post_ana =
              Inr ([Write (JSON_stringify (users_json (users empty_store @ [u]))),
                    Send \<lparr>status = 201, payload = Some (user_json u)\<rparr>],
                   \<lparr>users = users empty_store @ [u],
                    file_text = JSON_stringify (users_json (users empty_store @ [u]))\<rparr>)
          \<and> name u = JStr ''Ana'' \<and> email u = JStr ''a@x.com'' \<and> role u = JStr ''viewer'')"
proof -
  have a: "req_method post_no_email = ''POST''" "pathname post_no_email = ''/users''"
    "isAuthenticated post_no_email"
    "getRequestBody post_no_email = JObj [(''name'', JStr ''X'')]"
    "JObj [(''name'', JStr ''X'')] \<noteq> JNull"
    by (simp_all add: eval_defs sample_defs)
  have b: "req_method post_ana = ''POST''" "pathname post_ana = ''/users''"
    "isAuthenticated post_ana"
    "getRequestBody post_ana = JObj [(''name'', JStr ''Ana''), (''email'', JStr ''a@x.com'')]"
    "JObj [(''name'', JStr ''Ana''), (''email'', JStr ''a@x.com'')] \<noteq> JNull"
    by (simp_all add: eval_defs sample_defs)
  from post_validates_name_and_email [OF a, of decimal store2]
    post_validates_name_and_email [OF b, of decimal empty_store] a b
  show ?thesis by fastforce
qed

text \<open>
  Claim C3 as stated fails. The first body below has the role \<open>""\<close>, and the created
  record has the role \<open>viewer\<close>. The second has the name \<open>""\<close> and an email, and is
  answered 400. And with the body \<open>null\<close> the handler throws: there is no response.
\<close>

theorem post_validates_counterexample:
  "property (getRequestBody post_empty_role) ''role'' = Some (JStr '''')
   \<and> handle decimal store2 post_empty_role =
       Inr ([Write (JSON_stringify (users_json [ana, bob, cy])),
             Send \<lparr>status = 201, payload = Some (user_json cy)\<rparr>],
            \<lparr>users = [ana, bob, cy], file_text = JSON_stringify (users_json [ana, bob, cy])\<rparr>)
   \<and> role cy = JStr ''viewer''
   \<and> property (getRequestBody post_empty_name) ''name'' = Some (JStr '''')
   \<and> property (getRequestBody post_empty_name) ''email'' = Some (JStr ''d@x.com'')
   \<and> response_status (handle decimal store2 post_empty_name) = Some 400
   \<and> handle decimal store2 post_null = Inl TypeError"
  by (simp add: eval_defs sample_defs)

text \<open>
  Claim C4. A request whose method is not OPTIONS is answered 401 exactly when its
  Authorization header is not the string \<open>Bearer my-secret-token\<close>, whatever its path,
  method, query and body; the state is then unchanged. An OPTIONS request is answered 200
  with no body, whatever its header.
\<close>

theorem auth_guard:
  "(req_method req \<noteq> ''OPTIONS'' \<longrightarrow>
      (response_status (handle tn s req) = Some 401) =
      (headers_authorization req \<noteq> Some ''Bearer my-secret-token'')
      \<and> (headers_authorization req \<noteq> Some ''Bearer my-secret-token'' \<longrightarrow>
           handle tn s req =
             Inr ([Send \<lparr>status = 401,
                         payload = Some (JObj [(''error'', JStr ''Unauthorized. Use Bearer token.'')])\<rparr>], s)))
   \<and> (req_method req = ''OPTIONS'' \<longrightarrow>
        handle tn s req = Inr ([Send \<lparr>status = 200, payload = None\<rparr>], s))"
  by (auto simp: handler_defs isAuthenticated_def AUTH_TOKEN_def send_def error_body_def
      saveUsers_eq Let_def split: option.splits prod.splits)

theorem auth_guard_witness:
  "req_method get_unauthorized \<noteq> ''OPTIONS''
   \<and> headers_authorization get_unauthorized \<noteq> Some ''Bearer my-secret-token''
   \<and> response_status (handle decimal store2 get_unauthorized) = Some 401
   \<and> req_method get_all \<noteq> ''OPTIONS''
   \<and> headers_authorization get_all = Some ''Bearer my-secret-token''
   \<and> response_status (handle decimal store2 get_all) \<noteq> Some 401
   \<and> req_method options_any = ''OPTIONS''
   \<and> handle decimal store2 options_any = Inr ([Send \<lparr>status = 200, payload = None\<rparr>], store2)"
  using auth_guard [of get_unauthorized decimal store2] auth_guard [of get_all decimal store2]
    auth_guard [of options_any decimal store2]
  by (simp add: get_unauthorized_def get_all_def options_any_def bearer_def)






lemma restart_after_mutation:
  assumes "handle tn s req = Inr (evs, s')" "s' \<noteq> s"
  shows "startup (Some (file_text s')) = Inr ([], s')"
proof -
  from assms(1) have "file_text s' = JSON_stringify (users_json (users s'))"
    using assms(2) by (cases rule: handle_cases) simp_all
  then have "startup (Some (file_text s')) =
      Inr ([], \<lparr>users = users s', file_text = file_text s'\<rparr>)"
    by (simp add: startup_def JSON_parse_stringify users_of_json_users_json)
  then show ?thesis by simp
qed

text \<open>
  Claim C8. A create (201), an update (PUT answered 200) and a delete (DELETE answered
  200) perform exactly two effects, in this order: one write of the serialisation of the
  whole array as it is after the operation, then the response. The file then holds that
  serialisation.
\<close>

theorem mutations_rewrite_file:
  assumes "handle tn s req = Inr (evs, s')"
    and "sent_status evs = Some 201
         \<or> (sent_status evs = Some 200 \<and> (req_method req = ''PUT'' \<or> req_method req = ''DELETE''))"
  shows "\<exists>r. evs = [Write (JSON_stringify (users_json (users s'))), Send r]
           \<and> file_text s' = JSON_stringify (users_json (users s'))"
  using assms(1)
proof (cases rule: handle_cases)
  case same
  from same obtain st p where e: "evs = [send st p]" "st \<noteq> 201" by blast
  have "req_method req \<noteq> ''PUT'' \<and> req_method req \<noteq> ''DELETE'' \<or> st \<noteq> 200"
    using assms(1) same(1) e
    by (auto simp: handler_defs saveUsers_eq Let_def send_def
          split: if_splits option.splits prod.splits)
  with assms(2) e show ?thesis by (auto simp: send_def)
qed (auto simp: send_def)

theorem mutations_rewrite_file_witness:
  "handle decimal store2 delete_1 =
     Inr ([Write (JSON_stringify (users_json [bob])),
           Send \<lparr>status = 200,
                 payload = Some (JObj [(''message'', JStr ''User deleted''), (''user'', user_json ana)])\<rparr>],
          \<lparr>users = [bob], file_text = JSON_stringify (users_json [bob])\<rparr>)
   \<and> req_method delete_1 = ''DELETE''
   \<and> file_text \<lparr>users = [bob], file_text = JSON_stringify (users_json [bob])\<rparr>
       = JSON_stringify (users_json (users \<lparr>users = [bob], file_text = JSON_stringify (users_json [bob])\<rparr>))"
proof -
  have m: "req_method delete_1 = ''DELETE''" by (simp add: delete_1_def)
  have st: "sent_status [Write (JSON_stringify (users_json [bob])),
           Send \<lparr>status = 200,
                 payload = Some (JObj [(''message'', JStr ''User deleted''), (''user'', user_json ana)])\<rparr>] = Some 201
     \<or> sent_status [Write (JSON_stringify (users_json [bob])),
           Send \<lparr>status = 200,
                 payload = Some (JObj [(''message'', JStr ''User deleted''), (''user'', user_json ana)])\<rparr>] = Some 200
       \<and> (req_method delete_1 = ''PUT'' \<or> req_method delete_1 = ''DELETE'')"
    using m by simp
  from mutations_rewrite_file [OF handle_delete_1 st] handle_delete_1 m
  show ?thesis by simp
qed



text \<open>
  Claim C10. A request answered 400, 401, 404 or 405 leaves the array and the file as they
  were, and its only effect is that response: nothing is written.
\<close>

theorem errors_leave_state:
  assumes "handle tn s req = Inr (evs, s')"
    and "sent_status evs \<in> {Some 400, Some 401, Some 404, Some 405}"
  shows "s' = s \<and> (\<exists>r. evs = [Send r])"
  using assms(1)
proof (cases rule: handle_cases)
  case same
  then show ?thesis by (auto simp: send_def)
qed (use assms(2) in \<open>auto simp: send_def\<close>)

theorem errors_leave_state_witness:
  "handle decimal store2 post_no_email =
     Inr ([Send \<lparr>status = 400,
                 payload = Some (JObj [(''error'', JStr ''Name and email are required'')])\<rparr>], store2)
   \<and> sent_status [Send \<lparr>status = 400,
                 payload = Some (JObj [(''error'', JStr ''Name and email are required'')])\<rparr>] = Some 400
   \<and> users store2 = [ana, bob] \<and> file_text store2 = JSON_stringify (users_json [ana, bob])"
proof -
  have h: "handle decimal store2 post_no_email =
     Inr ([Send \<lparr>status = 400,
                 payload = Some (JObj [(''error'', JStr ''Name and email are required'')])\<rparr>], store2)"
    by (simp add: eval_defs sample_defs)
  have st: "sent_status [Send \<lparr>status = 400,
                 payload = Some (JObj [(''error'', JStr ''Name and email are required'')])\<rparr>]
      \<in> {Some 400, Some 401, Some 404, Some 405}" by simp
  from errors_leave_state [OF h st] h show ?thesis by (simp add: store2_def)
qed

end
